theory Spec2Isabelle
  imports Complex_Main "HOL-Library.Word"
begin

section \<open>Data model\<close>

text \<open>
  The service module (geminiService.ts) works on three kinds of data: \<open>Uint8Array\<close>
  buffers, JavaScript strings and JavaScript numbers.
  \<^item> An element of a \<open>Uint8Array\<close> is an 8-bit word; a buffer is a list of them.
  \<^item> A JavaScript string is a sequence of UTF-16 code units; each unit is kept as the
    natural number \<open>charCodeAt\<close> returns for it.
  \<^item> Every exception the module or the platform functions it calls can throw is a
    constructor of \<open>error\<close>; a function that may throw returns \<open>error + 'a\<close>.
\<close>

type_synonym byte = "8 word"
type_synonym jsstring = "nat list"

datatype error =
    InvalidCharacterError
  | TypeError
  | RangeError
  | NoAudioData
  | ConnectionError

definition bindE :: "error + 'a \<Rightarrow> ('a \<Rightarrow> error + 'b) \<Rightarrow> error + 'b" where
  "bindE m f = (case m of Inl e \<Rightarrow> Inl e | Inr x \<Rightarrow> f x)"

section \<open>The platform's base64 functions\<close>

text \<open>
  \<open>atob\<close> and \<open>btoa\<close> are functions of the browser, not of the repository. They are
  modelled after the HTML standard: \<open>btoa\<close> throws InvalidCharacterError when the
  string holds a code unit above U+00FF and otherwise is the base64 encoding of
  RFC 4648 with padding; \<open>atob\<close> is the standard's forgiving-base64 decode.
\<close>

text \<open>The base64 alphabet: A-Z, a-z, 0-9, +, /.\<close>

definition b64_char :: "nat \<Rightarrow> nat" where
  "b64_char n =
     (if n < 26 then 65 + n
      else if n < 52 then 97 + (n - 26)
      else if n < 62 then 48 + (n - 52)
      else if n = 62 then 43
      else 47)"

definition b64_value :: "nat \<Rightarrow> nat option" where
  "b64_value c =
     (if 65 \<le> c \<and> c \<le> 90 then Some (c - 65)
      else if 97 \<le> c \<and> c \<le> 122 then Some (c - 97 + 26)
      else if 48 \<le> c \<and> c \<le> 57 then Some (c - 48 + 52)
      else if c = 43 then Some 62
      else if c = 47 then Some 63
      else None)"

text \<open>The 6-bit groups of a byte sequence, the last group filled up with zero bits.\<close>

fun b64_sextets :: "nat list \<Rightarrow> nat list" where
  "b64_sextets (x # y # z # rest) =
     (let n = (x * 256 + y) * 256 + z
      in [n div 262144, n div 4096 mod 64, n div 64 mod 64, n mod 64]) @ b64_sextets rest"
| "b64_sextets [x, y] =
     (let n = (x * 256 + y) * 4 in [n div 4096, n div 64 mod 64, n mod 64])"
| "b64_sextets [x] = (let n = x * 16 in [n div 64, n mod 64])"
| "b64_sextets [] = []"

text \<open>Padding with U+003D (=) up to a multiple of four characters.\<close>

definition b64_encode :: "nat list \<Rightarrow> jsstring" where
  "b64_encode bs =
     map b64_char (b64_sextets bs) @ replicate ((3 - length bs mod 3) mod 3) 61"

definition btoa :: "jsstring \<Rightarrow> error + jsstring" where
  "btoa s = (if list_ex (\<lambda>c. 255 < c) s then Inl InvalidCharacterError
             else Inr (b64_encode s))"

definition is_ascii_whitespace :: "nat \<Rightarrow> bool" where
  "is_ascii_whitespace c = (c = 9 \<or> c = 10 \<or> c = 12 \<or> c = 13 \<or> c = 32)"

text \<open>
  Step 2 of forgiving-base64 decode: when the length is a multiple of four, one or two
  trailing U+003D are removed.
\<close>

definition strip_padding :: "jsstring \<Rightarrow> jsstring" where
  "strip_padding d =
     (if length d mod 4 = 0 then
        (if 2 \<le> length d \<and> last d = 61 \<and> last (butlast d) = 61 then butlast (butlast d)
         else if 1 \<le> length d \<and> last d = 61 then butlast d
         else d)
      else d)"

text \<open>
  Steps 5 to 10: every four 6-bit groups give three bytes; of a rest of two groups
  the last four bits are discarded, of a rest of three groups the last two.
\<close>

fun b64_bytes :: "nat list \<Rightarrow> nat list" where
  "b64_bytes (a # b # c # d # rest) =
     (let n = ((a * 64 + b) * 64 + c) * 64 + d
      in [n div 65536, n div 256 mod 256, n mod 256]) @ b64_bytes rest"
| "b64_bytes [a, b, c] =
     (let n = ((a * 64 + b) * 64 + c) div 4 in [n div 256, n mod 256])"
| "b64_bytes [a, b] = [(a * 64 + b) div 16]"
| "b64_bytes [a] = []"
| "b64_bytes [] = []"

definition atob :: "jsstring \<Rightarrow> error + jsstring" where
  "atob s =
     (let d = strip_padding (filter (\<lambda>c. \<not> is_ascii_whitespace c) s)
      in if length d mod 4 = 1 then Inl InvalidCharacterError
         else (case those (map b64_value d) of
                 None \<Rightarrow> Inl InvalidCharacterError
               | Some sx \<Rightarrow> Inr (b64_bytes sx)))"

section \<open>Base64 and audio utility functions\<close>

text \<open>
  \<open>decode\<close> (lines 9-17): \<open>atob\<close>, then every code unit of the binary string is
  stored into a \<open>Uint8Array\<close>, which keeps its low eight bits.
\<close>

definition decode :: "jsstring \<Rightarrow> error + byte list" where
  "decode base64 = bindE (atob base64) (\<lambda>binaryString. Inr (map of_nat binaryString))"

text \<open>
  \<open>encode\<close> (lines 22-29): \<open>String.fromCharCode\<close> of every byte, appended in order,
  then \<open>btoa\<close>.
\<close>

definition encode :: "byte list \<Rightarrow> error + jsstring" where
  "encode bytes = btoa (map unat bytes)"

text \<open>
  A JavaScript number, as far as \<open>createBlob\<close> needs it: a finite value, the two
  infinities, or NaN. The elements of a \<open>Float32Array\<close> are such numbers. A finite
  value is kept as the real number it denotes (the sign of zero is not kept: no step
  below depends on it). Arithmetic on finite values is exact here; it agrees with the
  double-precision result whenever the exact result is a double, which is the case for
  the one product \<open>createBlob\<close> forms: a single-precision value of magnitude at most 1
  times 32767 has at most 39 significant bits.
\<close>

datatype jsnum = Num real | PosInf | NegInf | NaN

fun Math_min :: "jsnum \<Rightarrow> jsnum \<Rightarrow> jsnum" where
  "Math_min NaN y = NaN"
| "Math_min x NaN = NaN"
| "Math_min NegInf y = NegInf"
| "Math_min x NegInf = NegInf"
| "Math_min PosInf y = y"
| "Math_min x PosInf = x"
| "Math_min (Num a) (Num b) = Num (min a b)"

fun Math_max :: "jsnum \<Rightarrow> jsnum \<Rightarrow> jsnum" where
  "Math_max NaN y = NaN"
| "Math_max x NaN = NaN"
| "Math_max PosInf y = PosInf"
| "Math_max x PosInf = PosInf"
| "Math_max NegInf y = y"
| "Math_max x NegInf = x"
| "Math_max (Num a) (Num b) = Num (max a b)"

definition signed_inf :: "real \<Rightarrow> jsnum" where
  "signed_inf a = (if a = 0 then NaN else if 0 < a then PosInf else NegInf)"

fun js_times :: "jsnum \<Rightarrow> jsnum \<Rightarrow> jsnum" where
  "js_times NaN y = NaN"
| "js_times x NaN = NaN"
| "js_times (Num a) (Num b) = Num (a * b)"
| "js_times (Num a) PosInf = signed_inf a"
| "js_times (Num a) NegInf = signed_inf (- a)"
| "js_times PosInf (Num b) = signed_inf b"
| "js_times NegInf (Num b) = signed_inf (- b)"
| "js_times PosInf PosInf = PosInf"
| "js_times PosInf NegInf = NegInf"
| "js_times NegInf PosInf = NegInf"
| "js_times NegInf NegInf = PosInf"

text \<open>
  Storing a number into an \<open>Int16Array\<close> applies ToInt16: NaN and the infinities
  give 0; a finite value is truncated towards zero and reduced modulo \<open>2^16\<close>.
\<close>

definition js_truncate :: "real \<Rightarrow> int" where
  "js_truncate r = (if 0 \<le> r then \<lfloor>r\<rfloor> else \<lceil>r\<rceil>)"

fun ToInt16 :: "jsnum \<Rightarrow> 16 word" where
  "ToInt16 (Num r) = word_of_int (js_truncate r)"
| "ToInt16 x = 0"

text \<open>
  The SDK's \<open>Blob\<close>: optional base64 \<open>data\<close> and optional \<open>mimeType\<close>. It is the
  type of what \<open>createBlob\<close> returns and of a part's \<open>inlineData\<close>.
\<close>

record Blob =
  data :: "jsstring option"
  mimeType :: "string option"

text \<open>
  \<open>createBlob\<close> (lines 35-46). \<open>float_to_int16\<close> is the element stored by line 40;
  \<open>int16_bytes\<close> are the two bytes such an element occupies in \<open>int16.buffer\<close>, low
  byte first (the byte order of every platform the module runs on); \<open>pcm_bytes\<close> is
  the \<open>Uint8Array\<close> over that buffer which line 43 hands to \<open>encode\<close>.
\<close>

definition float_to_int16 :: "jsnum \<Rightarrow> 16 word" where
  "float_to_int16 x =
     ToInt16 (js_times (Math_max (Num (- 1)) (Math_min (Num 1) x)) (Num 32767))"

definition int16_bytes :: "16 word \<Rightarrow> byte list" where
  "int16_bytes w = [ucast w, ucast (drop_bit 8 w)]"

definition pcm_bytes :: "jsnum list \<Rightarrow> byte list" where
  "pcm_bytes samples = concat (map int16_bytes (map float_to_int16 samples))"

definition createBlob :: "jsnum list \<Rightarrow> error + Blob" where
  "createBlob samples =
     bindE (encode (pcm_bytes samples))
       (\<lambda>s. Inr \<lparr>data = Some s, mimeType = Some ''audio/pcm;rate=16000''\<rparr>)"

section \<open>The WAV writer\<close>

text \<open>
  A \<open>DataView\<close> setter checks that the value fits into the view at the given offset
  (RangeError otherwise) and stores its bytes there. The stores of \<open>pcmToWav\<close> all
  pass \<open>true\<close> for little-endian; the value is reduced modulo \<open>2^8\<close>, \<open>2^16\<close> or
  \<open>2^32\<close> first.
\<close>

definition SetViewValue :: "byte list \<Rightarrow> nat \<Rightarrow> byte list \<Rightarrow> error + byte list" where
  "SetViewValue view byteOffset rawBytes =
     (if length view < byteOffset + length rawBytes then Inl RangeError
      else Inr (take byteOffset view @ rawBytes @ drop (byteOffset + length rawBytes) view))"

definition raw_bytes16 :: "nat \<Rightarrow> bool \<Rightarrow> byte list" where
  "raw_bytes16 v littleEndian =
     (let u = v mod 65536; le = [of_nat u, of_nat (u div 256)]
      in if littleEndian then le else rev le)"

definition raw_bytes32 :: "nat \<Rightarrow> bool \<Rightarrow> byte list" where
  "raw_bytes32 v littleEndian =
     (let u = v mod 4294967296;
          le = [of_nat u, of_nat (u div 256), of_nat (u div 65536), of_nat (u div 16777216)]
      in if littleEndian then le else rev le)"

definition setUint8 :: "byte list \<Rightarrow> nat \<Rightarrow> nat \<Rightarrow> error + byte list" where
  "setUint8 view byteOffset v = SetViewValue view byteOffset [of_nat v]"

definition setUint16 :: "byte list \<Rightarrow> nat \<Rightarrow> nat \<Rightarrow> bool \<Rightarrow> error + byte list" where
  "setUint16 view byteOffset v littleEndian =
     SetViewValue view byteOffset (raw_bytes16 v littleEndian)"

definition setUint32 :: "byte list \<Rightarrow> nat \<Rightarrow> nat \<Rightarrow> bool \<Rightarrow> error + byte list" where
  "setUint32 view byteOffset v littleEndian =
     SetViewValue view byteOffset (raw_bytes32 v littleEndian)"

text \<open>\<open>writeString\<close> (lines 51-55): one \<open>setUint8\<close> for each code unit, in order.\<close>

fun writeString :: "byte list \<Rightarrow> nat \<Rightarrow> jsstring \<Rightarrow> error + byte list" where
  "writeString view offset [] = Inr view"
| "writeString view offset (c # cs) =
     bindE (setUint8 view offset c) (\<lambda>view'. writeString view' (offset + 1) cs)"

definition ascii :: "string \<Rightarrow> jsstring" where
  "ascii s = map of_char s"

text \<open>
  \<open>target.set(source, offset)\<close> on a \<open>Uint8Array\<close>: RangeError when the source does
  not fit, else the source is copied to \<open>offset\<close>.
\<close>

definition typed_array_set :: "byte list \<Rightarrow> byte list \<Rightarrow> nat \<Rightarrow> error + byte list" where
  "typed_array_set target source offset =
     (if length target < length source + offset then Inl RangeError
      else Inr (take offset target @ source @ drop (offset + length source) target))"

text \<open>
  \<open>pcmToWav\<close> (lines 61-96). The result is the content of the returned \<open>Blob\<close>, which
  is the whole buffer. The two divisions by 8 are exact for the constants of lines
  62-64. \<open>new Uint8Array(buffer, 44)\<close> is the part of the buffer from offset 44 on.
\<close>

definition pcmToWav :: "byte list \<Rightarrow> error + byte list" where
  "pcmToWav pcmData =
     (let sampleRate = 24000;
          numChannels = 1;
          bitsPerSample = 16;
          byteRate = sampleRate * numChannels * bitsPerSample div 8;
          blockAlign = numChannels * bitsPerSample div 8;
          dataSize = length pcmData;
          buffer = replicate (44 + dataSize) 0
      in bindE (writeString buffer 0 (ascii ''RIFF'')) (\<lambda>view.
         bindE (setUint32 view 4 (36 + dataSize) True) (\<lambda>view.
         bindE (writeString view 8 (ascii ''WAVE'')) (\<lambda>view.
         bindE (writeString view 12 (ascii ''fmt '')) (\<lambda>view.
         bindE (setUint32 view 16 16 True) (\<lambda>view.
         bindE (setUint16 view 20 1 True) (\<lambda>view.
         bindE (setUint16 view 22 numChannels True) (\<lambda>view.
         bindE (setUint32 view 24 sampleRate True) (\<lambda>view.
         bindE (setUint32 view 28 byteRate True) (\<lambda>view.
         bindE (setUint16 view 32 blockAlign True) (\<lambda>view.
         bindE (setUint16 view 34 bitsPerSample True) (\<lambda>view.
         bindE (writeString view 36 (ascii ''data'')) (\<lambda>view.
         bindE (setUint32 view 40 dataSize True) (\<lambda>view.
         bindE (typed_array_set (drop 44 view) pcmData 0) (\<lambda>tail.
         Inr (take 44 view @ tail))))))))))))))))"

section \<open>The streaming session\<close>

text \<open>
  An inbound \<open>LiveServerMessage\<close>, with the fields line 124 and line 130 read. Every
  field is optional in the SDK's types; \<open>None\<close> is an absent (undefined) field.
\<close>

record Part =
  inlineData :: "Blob option"

record Content =
  parts :: "Part list option"

record LiveServerContent =
  modelTurn :: "Content option"
  turnComplete :: "bool option"

record LiveServerMessage =
  serverContent :: "LiveServerContent option"

text \<open>
  Line 124, \<open>message.serverContent?.modelTurn?.parts[0]?.inlineData?.data\<close>. Each
  \<open>?.\<close> yields undefined when what stands before it is undefined. There is no \<open>?.\<close>
  between \<open>parts\<close> and \<open>[0]\<close>: indexing an undefined \<open>parts\<close> throws a TypeError.
  Index 0 of an empty array is undefined.
\<close>

definition base64Audio :: "LiveServerMessage \<Rightarrow> error + jsstring option" where
  "base64Audio message =
     (case serverContent message of
        None \<Rightarrow> Inr None
      | Some sc \<Rightarrow>
          (case modelTurn sc of
             None \<Rightarrow> Inr None
           | Some mt \<Rightarrow>
               (case parts mt of
                  None \<Rightarrow> Inl TypeError
                | Some ps \<Rightarrow>
                    (case ps of
                       [] \<Rightarrow> Inr None
                     | p # _ \<Rightarrow>
                         (case inlineData p of
                            None \<Rightarrow> Inr None
                          | Some b \<Rightarrow> Inr (data b))))))"

text \<open>Line 130, \<open>message.serverContent?.turnComplete\<close>, as a condition.\<close>

definition turn_complete :: "LiveServerMessage \<Rightarrow> bool" where
  "turn_complete message =
     (case serverContent message of
        None \<Rightarrow> False
      | Some sc \<Rightarrow> (case turnComplete sc of None \<Rightarrow> False | Some b \<Rightarrow> b))"

text \<open>
  The state of one call of \<open>generateAudioFromText\<close>: the array \<open>audioChunks\<close>; the
  state of the returned promise (\<open>None\<close> while pending, \<open>Inr\<close> the content of the WAV
  blob whose object URL it was resolved with, \<open>Inl\<close> the error it was rejected with);
  whether \<open>session.close()\<close> has been asked for; and the exceptions that left an
  \<open>async\<close> callback, which reject only that callback's own promise.
\<close>

record request =
  audioChunks :: "byte list list"
  settled :: "(error + byte list) option"
  closeRequested :: bool
  unhandled :: "error list"

definition initial :: request where
  "initial = \<lparr>audioChunks = [], settled = None, closeRequested = False, unhandled = []\<rparr>"

text \<open>A promise is settled by the first \<open>resolve\<close> or \<open>reject\<close> only.\<close>

definition resolve :: "request \<Rightarrow> byte list \<Rightarrow> request" where
  "resolve st v = (if settled st = None then st\<lparr>settled := Some (Inr v)\<rparr> else st)"

definition reject :: "request \<Rightarrow> error \<Rightarrow> request" where
  "reject st e = (if settled st = None then st\<lparr>settled := Some (Inl e)\<rparr> else st)"

text \<open>
  \<open>onmessage\<close> (lines 123-134). A string is taken by \<open>if (base64Audio)\<close> unless it is
  empty. \<open>Inl\<close> is an exception thrown before anything was changed.
\<close>

definition onmessage :: "LiveServerMessage \<Rightarrow> request \<Rightarrow> error + request" where
  "onmessage message st =
     bindE (base64Audio message) (\<lambda>b64.
     bindE (case b64 of
              None \<Rightarrow> Inr st
            | Some s \<Rightarrow>
                (if s \<noteq> [] then
                   bindE (decode s) (\<lambda>decodedChunk.
                     Inr (st\<lparr>audioChunks := audioChunks st @ [decodedChunk]\<rparr>))
                 else Inr st)) (\<lambda>st'.
     Inr (if turn_complete message then st'\<lparr>closeRequested := True\<rparr> else st')))"

text \<open>
  The session calls \<open>onmessage\<close> for every inbound message. The callback is \<open>async\<close>:
  an exception in it rejects the promise the callback returns, which nothing reads.
\<close>

definition deliver :: "request \<Rightarrow> LiveServerMessage \<Rightarrow> request" where
  "deliver st message =
     (case onmessage message st of
        Inr st' \<Rightarrow> st'
      | Inl e \<Rightarrow> st\<lparr>unhandled := unhandled st @ [e]\<rparr>)"

text \<open>
  Lines 138-144 of \<open>onclose\<close>: the total length, one buffer of that length, and every
  chunk copied to its offset, in the order of the array.
\<close>

fun copy_chunks :: "byte list \<Rightarrow> nat \<Rightarrow> byte list list \<Rightarrow> error + byte list" where
  "copy_chunks fullAudio offset [] = Inr fullAudio"
| "copy_chunks fullAudio offset (chunk # rest) =
     bindE (typed_array_set fullAudio chunk offset) (\<lambda>fullAudio'.
       copy_chunks fullAudio' (offset + length chunk) rest)"

definition fullAudio :: "byte list list \<Rightarrow> error + byte list" where
  "fullAudio chunks =
     (let totalLength = foldl (\<lambda>acc chunk. acc + length chunk) 0 chunks
      in copy_chunks (replicate totalLength 0) 0 chunks)"

text \<open>\<open>onclose\<close> (lines 135-151) and \<open>onerror\<close> (lines 152-155).\<close>

definition onclose :: "request \<Rightarrow> error + request" where
  "onclose st =
     (if 0 < length (audioChunks st) then
        bindE (fullAudio (audioChunks st)) (\<lambda>audio.
        bindE (pcmToWav audio) (\<lambda>audioBlob.
        Inr (resolve st audioBlob)))
      else Inr (reject st NoAudioData))"

definition onerror :: "request \<Rightarrow> request" where
  "onerror st = reject st ConnectionError"

text \<open>A session that delivers the given messages in order and then closes.\<close>

definition session :: "LiveServerMessage list \<Rightarrow> error + request" where
  "session messages = onclose (foldl deliver initial messages)"

text \<open>A message whose first part carries the given base64 string, and nothing else.\<close>

definition audio_message :: "jsstring \<Rightarrow> LiveServerMessage" where
  "audio_message s =
     \<lparr>serverContent = Some
        \<lparr>modelTurn = Some \<lparr>parts = Some [\<lparr>inlineData = Some \<lparr>data = Some s, mimeType = None\<rparr>\<rparr>]\<rparr>,
         turnComplete = None\<rparr>\<rparr>"

section \<open>Reading a WAV file back\<close>

text \<open>
  The readers a WAV parser applies to a header: an unsigned little-endian 16-bit or
  32-bit number at a byte offset.
\<close>

definition u16_at :: "byte list \<Rightarrow> nat \<Rightarrow> nat" where
  "u16_at bs off = unat (bs ! off) + 256 * unat (bs ! (off + 1))"

definition u32_at :: "byte list \<Rightarrow> nat \<Rightarrow> nat" where
  "u32_at bs off =
     unat (bs ! off) + 256 * unat (bs ! (off + 1)) + 65536 * unat (bs ! (off + 2)) +
     16777216 * unat (bs ! (off + 3))"

text \<open>
  The 44 bytes \<open>pcmToWav\<close> writes in front of a payload of \<open>n\<close> bytes, field by
  field in the order of lines 74-90.
\<close>

definition wav_header :: "nat \<Rightarrow> byte list" where
  "wav_header n =
     [82, 73, 70, 70] @ raw_bytes32 (36 + n) True @ [87, 65, 86, 69] @ [102, 109, 116, 32] @
     raw_bytes32 16 True @ raw_bytes16 1 True @ raw_bytes16 1 True @ raw_bytes32 24000 True @
     raw_bytes32 48000 True @ raw_bytes16 2 True @ raw_bytes16 16 True @
     [100, 97, 116, 97] @ raw_bytes32 n True"

text \<open>
  The chunks \<open>onmessage\<close> appends to \<open>audioChunks\<close> for one message: the decoded
  payload when there is a non-empty payload string that decodes, nothing otherwise.
\<close>

definition accepted :: "LiveServerMessage \<Rightarrow> byte list list" where
  "accepted message =
     (case base64Audio message of
        Inr (Some s) \<Rightarrow>
          (if s \<noteq> [] then (case decode s of Inr chunk \<Rightarrow> [chunk] | Inl e \<Rightarrow> []) else [])
      | Inr None \<Rightarrow> []
      | Inl e \<Rightarrow> [])"

section \<open>The writer of the specification\<close>




section \<open>Arithmetic of base64 groups\<close>

lemma div_4096: "(n::nat) div 4096 = n div 64 div 64"
proof -
  have "n div 4096 = n div (64 * 64)" by simp
  also have "\<dots> = n div 64 div 64" by (rule div_mult2_eq)
  finally show ?thesis .
qed

lemma div_262144: "(n::nat) div 262144 = n div 64 div 64 div 64"
proof -
  have "n div 262144 = n div (4096 * 64)" by simp
  also have "\<dots> = n div 4096 div 64" by (rule div_mult2_eq)
  finally show ?thesis by (simp only: div_4096)
qed

lemma div_65536: "(n::nat) div 65536 = n div 256 div 256"
proof -
  have "n div 65536 = n div (256 * 256)" by simp
  also have "\<dots> = n div 256 div 256" by (rule div_mult2_eq)
  finally show ?thesis .
qed

lemma join64: "(a::nat) div 64 * 64 + a mod 64 = a"
  by simp

lemma sextets4_join:
  fixes n :: nat
  shows "((n div 262144 * 64 + n div 4096 mod 64) * 64 + n div 64 mod 64) * 64 + n mod 64 = n"
  by (simp only: div_262144 div_4096 join64)

lemma sextets3_join:
  fixes n :: nat
  shows "(n div 4096 * 64 + n div 64 mod 64) * 64 + n mod 64 = n"
  by (simp only: div_4096 join64)

lemma div_mod_256:
  fixes a z :: nat
  assumes "z < 256"
  shows "(a * 256 + z) div 256 = a" and "(a * 256 + z) mod 256 = z"
  using assms by simp_all

lemma bytes3_split:
  fixes x y z :: nat
  assumes "y < 256" "z < 256"
  shows "((x * 256 + y) * 256 + z) div 65536 = x"
    and "((x * 256 + y) * 256 + z) div 256 mod 256 = y"
    and "((x * 256 + y) * 256 + z) mod 256 = z"
  by (simp_all only: div_65536 div_mod_256 [OF assms(1)] div_mod_256 [OF assms(2)])

lemma bytes3_sextet_bound:
  fixes x y z :: nat
  assumes "x < 256" "y < 256" "z < 256"
  shows "((x * 256 + y) * 256 + z) div 262144 < 64"
proof -
  have "(x * 256 + y) * 256 + z < 64 * 262144" using assms by simp
  then show ?thesis by (rule less_mult_imp_div_less)
qed

lemma bytes2_split:
  fixes x y :: nat
  assumes "y < 256"
  shows "(x * 256 + y) * 4 div 4 div 256 = x"
    and "(x * 256 + y) * 4 div 4 mod 256 = y"
  using assms by simp_all

lemma bytes2_sextet_bound:
  fixes x y :: nat
  assumes "x < 256" "y < 256"
  shows "(x * 256 + y) * 4 div 4096 < 64"
proof -
  have "(x * 256 + y) * 4 < 64 * 4096" using assms by simp
  then show ?thesis by (rule less_mult_imp_div_less)
qed

lemma bytes1_sextet_bound:
  fixes x :: nat
  assumes "x < 256"
  shows "x * 16 div 64 < 64"
proof -
  have "x * 16 < 64 * 64" using assms by simp
  then show ?thesis by (rule less_mult_imp_div_less)
qed

lemma bytes1_split: "(x::nat) * 16 div 16 = x"
  by simp

section \<open>Properties of the base64 pair\<close>

lemma b64_value_char: "n < 64 \<Longrightarrow> b64_value (b64_char n) = Some n"
  unfolding b64_value_def b64_char_def by (auto split: if_splits)

lemma b64_char_not_ws: "\<not> is_ascii_whitespace (b64_char n)"
  unfolding is_ascii_whitespace_def b64_char_def by (auto split: if_splits)

lemma b64_char_not_pad: "b64_char n \<noteq> 61"
  unfolding b64_char_def by (auto split: if_splits)

lemma b64_sextets_lt:
  "list_all (\<lambda>b. b < 256) bs \<Longrightarrow> list_all (\<lambda>s. s < 64) (b64_sextets bs)"
proof (induction bs rule: b64_sextets.induct)
  case (1 x y z rest)
  then have b: "x < 256" "y < 256" "z < 256" and r: "list_all (\<lambda>s. s < 64) (b64_sextets rest)"
    by simp_all
  show ?case
    using r bytes3_sextet_bound [OF b]
    by (simp only: b64_sextets.simps Let_def list_all_append list.pred_inject) simp
next
  case (2 x y)
  then have b: "x < 256" "y < 256" by simp_all
  show ?case
    using bytes2_sextet_bound [OF b]
    by (simp only: b64_sextets.simps Let_def list.pred_inject) simp
next
  case (3 x)
  then have b: "x < 256" by simp
  show ?case
    using bytes1_sextet_bound [OF b]
    by (simp only: b64_sextets.simps Let_def list.pred_inject) simp
next
  case 4
  then show ?case by simp
qed

text \<open>Regrouping the 6-bit groups of a byte sequence gives the bytes back.\<close>

lemma b64_bytes_sextets:
  "list_all (\<lambda>b. b < 256) bs \<Longrightarrow> b64_bytes (b64_sextets bs) = bs"
proof (induction bs rule: b64_sextets.induct)
  case (1 x y z rest)
  then have b: "y < 256" "z < 256" and r: "b64_bytes (b64_sextets rest) = rest"
    by simp_all
  show ?case
    by (simp only: b64_sextets.simps Let_def append_Cons append_Nil b64_bytes.simps
        sextets4_join bytes3_split [OF b] r)
next
  case (2 x y)
  then have b: "y < 256" by simp
  show ?case
    by (simp only: b64_sextets.simps Let_def b64_bytes.simps sextets3_join bytes2_split [OF b])
next
  case (3 x)
  show ?case
    by (simp only: b64_sextets.simps Let_def b64_bytes.simps join64 bytes1_split)
next
  case 4
  then show ?case by simp
qed

lemma length_b64_sextets:
  "length (b64_sextets bs) =
     4 * (length bs div 3) + (if length bs mod 3 = 0 then 0 else length bs mod 3 + 1)"
proof (induction bs rule: b64_sextets.induct)
  case (1 x y z rest)
  have l: "length (x # y # z # rest) = length rest + 3" by simp
  have "length (b64_sextets (x # y # z # rest)) = length (b64_sextets rest) + 4"
    by (simp add: Let_def)
  then show ?case
    unfolding l using 1 by (simp only: div_add_self2 mod_add_self2) simp
qed (simp_all add: Let_def)

lemma mod3_cases:
  fixes n :: nat
  obtains "n mod 3 = 0" | "n mod 3 = 1" | "n mod 3 = 2"
  by (metis One_nat_def Suc_1 less_Suc_eq less_one mod_less_divisor numeral_3_eq_3 zero_less_Suc)

lemma length_b64_encode_mod4: "length (b64_encode bs) mod 4 = 0"
  by (cases "length bs" rule: mod3_cases) (simp_all add: b64_encode_def length_b64_sextets)

lemma filter_ws_b64_encode:
  "filter (\<lambda>c. \<not> is_ascii_whitespace c) (b64_encode bs) = b64_encode bs"
proof -
  have "\<not> is_ascii_whitespace 61" by (simp add: is_ascii_whitespace_def)
  then show ?thesis
    by (auto simp: b64_encode_def b64_char_not_ws intro!: filter_True)
qed

lemma those_b64_value_char:
  "list_all (\<lambda>s. s < 64) sx \<Longrightarrow> those (map b64_value (map b64_char sx)) = Some sx"
  by (induction sx) (simp_all add: b64_value_char)

lemma strip_padding_b64_encode:
  "strip_padding (b64_encode bs) = map b64_char (b64_sextets bs)"
proof (cases "length bs" rule: mod3_cases)
  case 1
  have e: "b64_encode bs = map b64_char (b64_sextets bs)"
    using 1 by (simp add: b64_encode_def)
  show ?thesis
  proof (cases "b64_sextets bs = []")
    case True
    then show ?thesis by (simp add: e strip_padding_def)
  next
    case False
    then have "last (map b64_char (b64_sextets bs)) \<noteq> 61"
      by (simp add: last_map b64_char_not_pad)
    then show ?thesis by (simp add: e strip_padding_def)
  qed
next
  case 2
  have e: "b64_encode bs = map b64_char (b64_sextets bs) @ [61, 61]"
    using 2 by (simp add: b64_encode_def numeral_2_eq_2)
  have "length (b64_encode bs) mod 4 = 0" by (rule length_b64_encode_mod4)
  then show ?thesis
    by (simp add: e strip_padding_def butlast_append)
next
  case 3
  have e: "b64_encode bs = map b64_char (b64_sextets bs) @ [61]"
    using 3 by (simp add: b64_encode_def)
  have n: "b64_sextets bs \<noteq> []"
    using 3 length_b64_sextets [of bs] by auto
  then have "last (map b64_char (b64_sextets bs)) \<noteq> 61"
    by (simp add: last_map b64_char_not_pad)
  moreover have "length (b64_encode bs) mod 4 = 0" by (rule length_b64_encode_mod4)
  ultimately show ?thesis
    using n by (simp add: e strip_padding_def butlast_append)
qed

lemma length_b64_sextets_mod4: "length (b64_sextets bs) mod 4 \<noteq> 1"
proof (cases "length bs" rule: mod3_cases)
  case 1
  then have "length (b64_sextets bs) = 4 * (length bs div 3)"
    by (simp add: length_b64_sextets)
  then show ?thesis by simp
next
  case 2
  then have "length (b64_sextets bs) = 4 * (length bs div 3) + 2"
    by (simp add: length_b64_sextets)
  then show ?thesis by presburger
next
  case 3
  then have "length (b64_sextets bs) = 4 * (length bs div 3) + 3"
    by (simp add: length_b64_sextets)
  then show ?thesis by presburger
qed

text \<open>
  \<open>atob\<close> undoes the encoding: the text has no whitespace, its length is a multiple
  of four, the padding is stripped, and what remains are alphabet characters only.
\<close>

lemma atob_b64_encode:
  assumes "list_all (\<lambda>b. b < 256) bs"
  shows "atob (b64_encode bs) = Inr bs"
  using assms length_b64_sextets_mod4 [of bs]
  by (simp add: atob_def filter_ws_b64_encode strip_padding_b64_encode
      those_b64_value_char b64_sextets_lt b64_bytes_sextets del: map_map)

lemma encode_decode_bytes:
  "encode bytes = Inr (b64_encode (map unat bytes)) \<and> decode (b64_encode (map unat bytes)) = Inr bytes"
proof -
  have "unat b < 256" for b :: byte
    using unsigned_less [of b, where 'a = nat] by simp
  then have lt: "list_all (\<lambda>b. b < 256) (map unat bytes)"
    by (induction bytes) simp_all
  then have "\<not> list_ex (\<lambda>c. 255 < c) (map unat bytes)"
    by (induction bytes) auto
  then have "encode bytes = Inr (b64_encode (map unat bytes))"
    by (simp add: encode_def btoa_def)
  moreover have "decode (b64_encode (map unat bytes)) = Inr bytes"
    by (simp add: decode_def bindE_def atob_b64_encode [OF lt] map_idI)
  ultimately show ?thesis by simp
qed

section \<open>Properties of the PCM conversion\<close>










lemma length_pcm_bytes: "length (pcm_bytes samples) = 2 * length samples"
  by (induction samples) (simp_all add: pcm_bytes_def int16_bytes_def)

lemma pcm_bytes_silence: "pcm_bytes (replicate n (Num 0)) = replicate (2 * n) 0"
proof (induction n)
  case 0
  then show ?case by (simp add: pcm_bytes_def)
next
  case (Suc n)
  have "float_to_int16 (Num 0) = 0"
    by (simp add: float_to_int16_def js_truncate_def)
  then have "pcm_bytes (replicate (Suc n) (Num 0)) = [0, 0] @ pcm_bytes (replicate n (Num 0))"
    by (simp add: pcm_bytes_def int16_bytes_def)
  then show ?case using Suc by simp
qed

lemma createBlob_eq:
  "createBlob samples =
     Inr \<lparr>data = Some (b64_encode (map unat (pcm_bytes samples))),
          mimeType = Some ''audio/pcm;rate=16000''\<rparr>"
  using encode_decode_bytes [of "pcm_bytes samples"]
  by (simp add: createBlob_def bindE_def)


section \<open>Properties of the WAV writer\<close>

lemma zeros44:
  "replicate 44 (0::byte) =
     [0,0,0,0, 0,0,0,0, 0,0,0,0, 0,0,0,0, 0,0,0,0, 0,0,0,0, 0,0,0,0, 0,0,0,0,
      0,0,0,0, 0,0,0,0, 0,0,0,0]"
  by (simp add: numeral_eq_Suc)

lemma ascii_tags:
  "ascii ''RIFF'' = [82, 73, 70, 70]" "ascii ''WAVE'' = [87, 65, 86, 69]"
  "ascii ''fmt '' = [102, 109, 116, 32]" "ascii ''data'' = [100, 97, 116, 97]"
  by (simp_all add: ascii_def)

text \<open>
  Every write of \<open>pcmToWav\<close> is in range, so it always returns; the result is the
  header followed by the payload.
\<close>

lemma pcmToWav_bytes: "pcmToWav p = Inr (wav_header (length p) @ p)"
proof -
  have b: "replicate (44 + length p) (0::byte) = replicate 44 0 @ replicate (length p) 0"
    by (simp add: replicate_add)
  show ?thesis
    unfolding pcmToWav_def Let_def b zeros44 ascii_tags
    by (simp add: bindE_def setUint8_def setUint16_def setUint32_def SetViewValue_def
        typed_array_set_def raw_bytes16_def raw_bytes32_def wav_header_def Let_def)
qed

lemma unat_byte_of_nat: "unat (of_nat x :: byte) = x mod 256"
  by (simp add: unat_of_nat)

lemma le16_value:
  fixes x :: nat
  shows "x mod 256 + 256 * (x div 256 mod 256) = x mod 65536"
proof -
  have "x mod (256 * 256) = 256 * (x div 256 mod 256) + x mod 256"
    by (rule mod_mult2_eq)
  then show ?thesis by simp
qed

lemma le32_value:
  fixes x :: nat
  shows "x mod 256 + 256 * (x div 256 mod 256) + 65536 * (x div 65536 mod 256) +
         16777216 * (x div 16777216 mod 256) = x mod 4294967296"
proof -
  have a: "x mod (65536 * 65536) = 65536 * (x div 65536 mod 65536) + x mod 65536"
    by (rule mod_mult2_eq)
  have d: "x div 65536 div 256 = x div 16777216"
    by (simp add: div_mult2_eq [symmetric])
  have b: "x div 65536 mod 65536 = x div 65536 mod 256 + 256 * (x div 16777216 mod 256)"
    using le16_value [of "x div 65536"] by (simp add: d)
  have c: "x mod 65536 = x mod 256 + 256 * (x div 256 mod 256)"
    by (simp add: le16_value)
  have "x mod 4294967296 = 65536 * (x div 65536 mod 65536) + x mod 65536"
    using a by simp
  then show ?thesis by (simp add: b c)
qed

lemma u32_at_raw:
  assumes "length h = off"
  shows "u32_at (h @ raw_bytes32 v True @ t) off = v mod 4294967296"
proof -
  let ?u = "v mod 4294967296"
  have "u32_at (h @ raw_bytes32 v True @ t) off =
          ?u mod 256 + 256 * (?u div 256 mod 256) + 65536 * (?u div 65536 mod 256) +
          16777216 * (?u div 16777216 mod 256)"
    using assms
    by (simp add: u32_at_def raw_bytes32_def Let_def nth_append unat_byte_of_nat)
  then show ?thesis by (simp only: le32_value mod_mod_trivial)
qed

lemma u16_at_raw:
  assumes "length h = off"
  shows "u16_at (h @ raw_bytes16 v True @ t) off = v mod 65536"
proof -
  let ?u = "v mod 65536"
  have "u16_at (h @ raw_bytes16 v True @ t) off = ?u mod 256 + 256 * (?u div 256 mod 256)"
    using assms
    by (simp add: u16_at_def raw_bytes16_def Let_def nth_append unat_byte_of_nat)
  then show ?thesis by (simp only: le16_value mod_mod_trivial)
qed

lemma length_raw [simp]: "length (raw_bytes32 v e) = 4" "length (raw_bytes16 v e) = 2"
  by (simp_all add: raw_bytes32_def raw_bytes16_def Let_def)

lemma length_wav_header: "length (wav_header n) = 44"
  by (simp add: wav_header_def)

lemma header_riff_size: "u32_at (wav_header n @ p) 4 = (36 + n) mod 4294967296"
  using u32_at_raw [of "[82, 73, 70, 70]" 4 "36 + n"]
  by (simp add: wav_header_def)

lemma header_data_size: "u32_at (wav_header n @ p) 40 = n mod 4294967296"
proof -
  let ?h = "[82, 73, 70, 70] @ raw_bytes32 (36 + n) True @ [87, 65, 86, 69] @ [102, 109, 116, 32] @
     raw_bytes32 16 True @ raw_bytes16 1 True @ raw_bytes16 1 True @ raw_bytes32 24000 True @
     raw_bytes32 48000 True @ raw_bytes16 2 True @ raw_bytes16 16 True @
     [100, 97, 116, 97]"
  have "length ?h = 40" by simp
  then have "u32_at (?h @ raw_bytes32 n True @ p) 40 = n mod 4294967296"
    by (rule u32_at_raw)
  then show ?thesis by (simp add: wav_header_def)
qed

lemma header_fixed:
  "take 4 (wav_header n @ p) = map of_nat (ascii ''RIFF'')"
  "take 4 (drop 8 (wav_header n @ p)) = map of_nat (ascii ''WAVE'')"
  "take 4 (drop 12 (wav_header n @ p)) = map of_nat (ascii ''fmt '')"
  "u32_at (wav_header n @ p) 16 = 16"
  "u16_at (wav_header n @ p) 20 = 1"
  "u16_at (wav_header n @ p) 22 = 1"
  "u32_at (wav_header n @ p) 24 = 24000"
  "u32_at (wav_header n @ p) 28 = 48000"
  "u16_at (wav_header n @ p) 32 = 2"
  "u16_at (wav_header n @ p) 34 = 16"
  "take 4 (drop 36 (wav_header n @ p)) = map of_nat (ascii ''data'')"
  "drop 44 (wav_header n @ p) = p"
  by (simp_all add: wav_header_def ascii_tags raw_bytes32_def raw_bytes16_def Let_def
      u32_at_def u16_at_def)









section \<open>Properties of the session\<close>

lemma typed_array_set_fits:
  "length source + offset \<le> length target \<Longrightarrow>
   typed_array_set target source offset =
     Inr (take offset target @ source @ drop (offset + length source) target)"
  by (simp add: typed_array_set_def)

text \<open>
  The copying loop, for a buffer with just enough room behind \<open>offset\<close>: what was
  in front of \<open>offset\<close> stays, followed by the chunks in order.
\<close>

lemma copy_chunks_concat:
  "length buf = offset + sum_list (map length chunks) \<Longrightarrow>
   copy_chunks buf offset chunks = Inr (take offset buf @ concat chunks)"
proof (induction chunks arbitrary: buf offset)
  case Nil
  then show ?case by simp
next
  case (Cons chunk rest)
  let ?buf = "take offset buf @ chunk @ drop (offset + length chunk) buf"
  have fit: "length chunk + offset \<le> length buf" using Cons.prems by simp
  have len: "length ?buf = (offset + length chunk) + sum_list (map length rest)"
    using Cons.prems by simp
  have "copy_chunks buf offset (chunk # rest) = copy_chunks ?buf (offset + length chunk) rest"
    by (simp add: typed_array_set_fits [OF fit] bindE_def)
  also have "\<dots> = Inr (take (offset + length chunk) ?buf @ concat rest)"
    by (rule Cons.IH [OF len])
  also have "take (offset + length chunk) ?buf = take offset buf @ chunk"
    using fit by simp
  finally show ?case by simp
qed

lemma totalLength_sum:
  "foldl (\<lambda>acc chunk. acc + length chunk) a chunks = a + sum_list (map length chunks)"
  by (induction chunks arbitrary: a) simp_all

lemma fullAudio_concat: "fullAudio chunks = Inr (concat chunks)"
  using copy_chunks_concat [of "replicate (sum_list (map length chunks)) 0" 0 chunks]
  by (simp add: fullAudio_def totalLength_sum)

lemma onclose_chunks:
  assumes "audioChunks st \<noteq> []"
  shows "onclose st =
           Inr (resolve st (wav_header (length (concat (audioChunks st))) @ concat (audioChunks st)))"
  using assms by (simp add: onclose_def fullAudio_concat pcmToWav_bytes bindE_def)


text \<open>
  A delivered message only ever appends to \<open>audioChunks\<close> and never settles the
  promise.
\<close>

lemma deliver_chunks: "audioChunks (deliver st m) = audioChunks st @ accepted m"
  by (simp add: deliver_def onmessage_def accepted_def bindE_def
      split: sum.splits option.splits)

lemma deliver_settled: "settled (deliver st m) = settled st"
  by (simp add: deliver_def onmessage_def bindE_def split: sum.splits option.splits)

lemma run_chunks:
  "audioChunks (foldl deliver st ms) = audioChunks st @ concat (map accepted ms)"
  by (induction ms arbitrary: st) (simp_all add: deliver_chunks)

lemma run_settled: "settled (foldl deliver st ms) = settled st"
  by (induction ms arbitrary: st) (simp_all add: deliver_settled)

lemma decode_empty: "decode [] = Inr []"
  by (simp add: decode_def atob_def strip_padding_def bindE_def)

lemma accepted_decoded:
  assumes "base64Audio m = Inr (Some s)" "decode s = Inr c"
  shows "concat (accepted m) = c" and "s \<noteq> [] \<Longrightarrow> accepted m \<noteq> []"
  using assms decode_empty by (auto simp: accepted_def)

lemma run_decoded:
  assumes "map base64Audio ms = map (\<lambda>s. Inr (Some s)) ss" "map decode ss = map Inr cs"
  shows "concat (concat (map accepted ms)) = concat cs"
  using assms
proof (induction ms arbitrary: ss cs)
  case Nil
  then show ?case by simp
next
  case (Cons m ms)
  from Cons.prems(1) obtain s ss' where ss: "ss = s # ss'"
    and m: "base64Audio m = Inr (Some s)"
    and ms: "map base64Audio ms = map (\<lambda>s. Inr (Some s)) ss'"
    by (cases ss) auto
  from Cons.prems(2) ss obtain c cs' where cs: "cs = c # cs'"
    and s: "decode s = Inr c" and ss': "map decode ss' = map Inr cs'"
    by (cases cs) auto
  show ?case
    using Cons.IH [OF ms ss'] accepted_decoded(1) [OF m s] by (simp add: cs)
qed

lemma run_nonempty:
  assumes "map base64Audio ms = map (\<lambda>s. Inr (Some s)) ss" "map decode ss = map Inr cs"
    and "list_ex (\<lambda>s. s \<noteq> []) ss"
  shows "concat (map accepted ms) \<noteq> []"
  using assms
proof (induction ms arbitrary: ss cs)
  case Nil
  then show ?case by simp
next
  case (Cons m ms)
  from Cons.prems(1) obtain s ss' where ss: "ss = s # ss'"
    and m: "base64Audio m = Inr (Some s)"
    and ms: "map base64Audio ms = map (\<lambda>s. Inr (Some s)) ss'"
    by (cases ss) auto
  from Cons.prems(2) ss obtain c cs' where cs: "cs = c # cs'"
    and s: "decode s = Inr c" and ss': "map decode ss' = map Inr cs'"
    by (cases cs) auto
  show ?case
  proof (cases "s = []")
    case True
    then have "list_ex (\<lambda>s. s \<noteq> []) ss'" using Cons.prems(3) ss by simp
    then show ?thesis using Cons.IH [OF ms ss'] by simp
  next
    case False
    then show ?thesis using accepted_decoded(2) [OF m s] by simp
  qed
qed


section \<open>The claims\<close>

text \<open>
  C1. For every PCM payload with \<open>36 + len(payload) < 2^32\<close>, \<open>pcmToWav\<close> returns a
  buffer of exactly \<open>44 + len(payload)\<close> bytes laid out little-endian as the header
  table has it: 'RIFF' at offset 0, the 32-bit number \<open>36 + dataSize\<close> at 4, 'WAVE' at
  8, 'fmt ' at 12, 16 at 16, 1 at 20, the channel count at 22, the sample rate at 24,
  the byte rate at 28, the block align at 32, the bits per sample at 34, 'data' at 36,
  \<open>dataSize = len(payload)\<close> at 40, and the payload itself from offset 44 on. The
  bound is needed: the two size fields are 32 bits wide and hold the sizes modulo
  \<open>2^32\<close>.
\<close>

theorem pcmToWav_layout:
  assumes "36 + length pcmData < 4294967296"
  shows "\<exists>wav. pcmToWav pcmData = Inr wav \<and>
           length wav = 44 + length pcmData \<and>
           take 4 wav = map of_nat (ascii ''RIFF'') \<and>
           u32_at wav 4 = 36 + length pcmData \<and>
           take 4 (drop 8 wav) = map of_nat (ascii ''WAVE'') \<and>
           take 4 (drop 12 wav) = map of_nat (ascii ''fmt '') \<and>
           u32_at wav 16 = 16 \<and>
           u16_at wav 20 = 1 \<and>
           u16_at wav 22 = 1 \<and>
           u32_at wav 24 = 24000 \<and>
           u32_at wav 28 = 24000 * 1 * 16 div 8 \<and>
           u16_at wav 32 = 1 * 16 div 8 \<and>
           u16_at wav 34 = 16 \<and>
           take 4 (drop 36 wav) = map of_nat (ascii ''data'') \<and>
           u32_at wav 40 = length pcmData \<and>
           drop 44 wav = pcmData"
proof -
  let ?w = "wav_header (length pcmData) @ pcmData"
  have "pcmToWav pcmData = Inr ?w" by (rule pcmToWav_bytes)
  moreover have "length ?w = 44 + length pcmData" by (simp add: length_wav_header)
  moreover have "u32_at ?w 4 = 36 + length pcmData"
    using assms by (simp add: header_riff_size)
  moreover have "u32_at ?w 40 = length pcmData"
    using assms by (simp add: header_data_size)
  ultimately show ?thesis
    by (intro exI [of _ ?w]) (simp only: header_fixed, simp)
qed

text \<open>The payload lengths 0, 1 and 100000.\<close>

theorem pcmToWav_layout_witness:
  "(\<exists>wav. pcmToWav [] = Inr wav \<and> length wav = 44 \<and> u32_at wav 4 = 36 \<and> u32_at wav 40 = 0) \<and>
   (\<exists>wav. pcmToWav [7] = Inr wav \<and> length wav = 45 \<and> u32_at wav 4 = 37 \<and> u32_at wav 40 = 1
      \<and> drop 44 wav = [7]) \<and>
   (\<exists>wav. pcmToWav (replicate 100000 0) = Inr wav \<and> length wav = 100044 \<and>
      u32_at wav 4 = 100036 \<and> u32_at wav 40 = 100000)"
proof -
  have a: "\<exists>wav. pcmToWav [] = Inr wav \<and> length wav = 44 \<and> u32_at wav 4 = 36 \<and> u32_at wav 40 = 0"
    using pcmToWav_layout [of "[]"] by auto
  have b: "\<exists>wav. pcmToWav [7] = Inr wav \<and> length wav = 45 \<and> u32_at wav 4 = 37 \<and> u32_at wav 40 = 1
      \<and> drop 44 wav = [7]"
    using pcmToWav_layout [of "[7]"] by auto
  have c: "\<exists>wav. pcmToWav (replicate 100000 0) = Inr wav \<and> length wav = 100044 \<and>
      u32_at wav 4 = 100036 \<and> u32_at wav 40 = 100000"
    using pcmToWav_layout [of "replicate 100000 0"] by auto
  from a b c show ?thesis by (intro conjI)
qed

text \<open>
  Without the bound the claim fails: for a payload of \<open>2^32 - 36\<close> bytes the writer
  returns a buffer whose RIFF size field reads 0, while \<open>36 + dataSize\<close> is \<open>2^32\<close>.
\<close>

theorem riff_size_wraps:
  "\<not> isl (pcmToWav (replicate 4294967260 0)) \<and>
   u32_at (projr (pcmToWav (replicate 4294967260 0))) 4 = 0 \<and>
   36 + length (replicate 4294967260 (0::byte)) = 4294967296"
  by (simp add: pcmToWav_bytes header_riff_size)

text \<open>
  C2. For every ordered list of byte chunks delivered to \<open>onmessage\<close> one at a time,
  each as a base64 string that decodes to it and at least one of the strings
  non-empty, closing the session assembles exactly the concatenation of the chunks in
  arrival order, and the request is resolved with the WAV file of that concatenation.
\<close>

theorem chunks_concatenated:
  assumes "map base64Audio messages = map (\<lambda>s. Inr (Some s)) strings"
    and "map decode strings = map Inr chunks"
    and "list_ex (\<lambda>s. s \<noteq> []) strings"
  shows "\<exists>st wav. session messages = Inr st \<and>
           fullAudio (audioChunks st) = Inr (concat chunks) \<and>
           pcmToWav (concat chunks) = Inr wav \<and>
           settled st = Some (Inr wav) \<and>
           drop 44 wav = concat chunks"
proof -
  let ?st = "foldl deliver initial messages"
  have c: "audioChunks ?st = concat (map accepted messages)"
    by (simp add: run_chunks initial_def)
  have n: "audioChunks ?st \<noteq> []"
    using run_nonempty [OF assms] c by simp
  have a: "concat (audioChunks ?st) = concat chunks"
    using run_decoded [OF assms(1,2)] c by simp
  have s: "settled ?st = None"
    by (simp add: run_settled initial_def)
  let ?wav = "wav_header (length (concat chunks)) @ concat chunks"
  have "session messages = Inr (resolve ?st ?wav)"
    using onclose_chunks [OF n] a by (simp add: session_def)
  moreover have "audioChunks (resolve ?st ?wav) = audioChunks ?st"
    by (simp add: resolve_def)
  moreover have "settled (resolve ?st ?wav) = Some (Inr ?wav)"
    using s by (simp add: resolve_def)
  moreover have "fullAudio (audioChunks ?st) = Inr (concat chunks)"
    using a by (simp add: fullAudio_concat)
  moreover have "drop 44 ?wav = concat chunks"
    by (simp add: length_wav_header)
  ultimately show ?thesis
    using pcmToWav_bytes [of "concat chunks"] by auto
qed

text \<open>
  Two chunks of 4 and 6 bytes, delivered as \<open>AQIDBA==\<close> and \<open>BQYHCAkK\<close>, give the
  10 bytes of the first followed by the second.
\<close>

theorem chunks_concatenated_witness:
  "\<exists>st wav. session [audio_message [65, 81, 73, 68, 66, 65, 61, 61],
                       audio_message [66, 81, 89, 72, 67, 65, 107, 75]] = Inr st \<and>
     fullAudio (audioChunks st) = Inr [1, 2, 3, 4, 5, 6, 7, 8, 9, 10] \<and>
     pcmToWav [1, 2, 3, 4, 5, 6, 7, 8, 9, 10] = Inr wav \<and>
     settled st = Some (Inr wav) \<and>
     drop 44 wav = [1, 2, 3, 4, 5, 6, 7, 8, 9, 10]"
proof -
  let ?ss = "[[65, 81, 73, 68, 66, 65, 61, 61], [66, 81, 89, 72, 67, 65, 107, 75]] :: jsstring list"
  let ?cs = "[[1, 2, 3, 4], [5, 6, 7, 8, 9, 10]] :: byte list list"
  have d: "decode [65, 81, 73, 68, 66, 65, 61, 61] = Inr [1, 2, 3, 4]"
    "decode [66, 81, 89, 72, 67, 65, 107, 75] = Inr [5, 6, 7, 8, 9, 10]"
    by (simp_all add: decode_def atob_def strip_padding_def bindE_def is_ascii_whitespace_def
        b64_value_def Let_def)
  have 1: "map base64Audio (map audio_message ?ss) = map (\<lambda>s. Inr (Some s)) ?ss"
    by (simp add: base64Audio_def audio_message_def)
  have 2: "map decode ?ss = map Inr ?cs"
    by (simp add: d)
  have 3: "list_ex (\<lambda>s. s \<noteq> []) ?ss" by simp
  show ?thesis
    using chunks_concatenated [OF 1 2 3] by simp
qed

text \<open>
  A list of one chunk of no bytes is delivered as the empty string, which
  \<open>if (base64Audio)\<close> does not take: the request is rejected instead of resolved with
  the (empty) concatenation.
\<close>

theorem empty_chunk_rejected:
  "encode [] = Inr [] \<and> decode [] = Inr [] \<and>
   session [audio_message []] =
     Inr \<lparr>audioChunks = [], settled = Some (Inl NoAudioData), closeRequested = False,
          unhandled = []\<rparr>"
  by (simp add: decode_empty encode_def btoa_def b64_encode_def session_def deliver_def
      onmessage_def base64Audio_def audio_message_def turn_complete_def bindE_def initial_def
      onclose_def reject_def)





text \<open>
  C5. A chunk sequence with a malformed base64 payload should fail the request. The
  code does otherwise: the exception of \<open>decode\<close> leaves the \<open>async\<close> callback
  unobserved, the chunk is left out, and the request is resolved with a WAV file of
  the other chunks. Here the second of three payloads is \<open>!!!!\<close>; the file holds the
  bytes of the first and the third.
\<close>

theorem malformed_chunk_dropped:
  "session [audio_message [65, 81, 73, 68], audio_message [33, 33, 33, 33],
            audio_message [66, 65, 85, 71]] =
     Inr \<lparr>audioChunks = [[1, 2, 3], [4, 5, 6]],
          settled = Some (Inr
            [82, 73, 70, 70, 42, 0, 0, 0, 87, 65, 86, 69, 102, 109, 116, 32,
             16, 0, 0, 0, 1, 0, 1, 0, 192, 93, 0, 0, 128, 187, 0, 0, 2, 0, 16, 0,
             100, 97, 116, 97, 6, 0, 0, 0,
             1, 2, 3, 4, 5, 6]),
          closeRequested = False,
          unhandled = [InvalidCharacterError]\<rparr>"
proof -
  have d: "decode [65, 81, 73, 68] = Inr [1, 2, 3]" "decode [66, 65, 85, 71] = Inr [4, 5, 6]"
    "decode [33, 33, 33, 33] = Inl InvalidCharacterError"
    by (simp_all add: decode_def atob_def strip_padding_def bindE_def is_ascii_whitespace_def
        b64_value_def Let_def)
  have "foldl deliver initial [audio_message [65, 81, 73, 68], audio_message [33, 33, 33, 33],
            audio_message [66, 65, 85, 71]] =
        \<lparr>audioChunks = [[1, 2, 3], [4, 5, 6]], settled = None, closeRequested = False,
         unhandled = [InvalidCharacterError]\<rparr>"
    by (simp add: deliver_def onmessage_def base64Audio_def audio_message_def turn_complete_def
        bindE_def initial_def d)
  then show ?thesis
    by (simp add: session_def onclose_chunks resolve_def wav_header_def raw_bytes32_def
        raw_bytes16_def Let_def)
qed



text \<open>
  C7. For every sample sequence the PCM bytes \<open>createBlob\<close> builds are exactly twice as
  many as the samples, and \<open>createBlob\<close> returns, without error, their base64 text,
  which decodes to exactly those bytes. No samples give no bytes; 160 samples of
  silence give 320 bytes, all zero.
\<close>

theorem createBlob_pcm_length:
  "(\<exists>s. createBlob samples = Inr \<lparr>data = Some s, mimeType = Some ''audio/pcm;rate=16000''\<rparr> \<and>
        decode s = Inr (pcm_bytes samples)) \<and>
   length (pcm_bytes samples) = 2 * length samples \<and>
   pcm_bytes [] = [] \<and>
   pcm_bytes (replicate 160 (Num 0)) = replicate 320 0"
proof -
  have "pcm_bytes [] = []" by (simp add: pcm_bytes_def)
  moreover have "pcm_bytes (replicate 160 (Num 0)) = replicate 320 0"
    using pcm_bytes_silence [of 160] by simp
  moreover have "\<exists>s. createBlob samples =
      Inr \<lparr>data = Some s, mimeType = Some ''audio/pcm;rate=16000''\<rparr> \<and>
      decode s = Inr (pcm_bytes samples)"
    using encode_decode_bytes [of "pcm_bytes samples"] by (simp add: createBlob_eq)
  ultimately show ?thesis by (simp add: length_pcm_bytes)
qed

text \<open>
  C8. A message without an audio payload should leave \<open>audioChunks\<close> as it is and
  raise nothing, whatever else it holds. For a message whose \<open>modelTurn\<close> has no
  \<open>parts\<close> the code does otherwise: line 124 indexes the undefined \<open>parts\<close> and throws
  a TypeError, and the turn-complete signal of the same message is not acted on.
\<close>

theorem missing_parts_throws:
  "base64Audio \<lparr>serverContent = Some \<lparr>modelTurn = Some \<lparr>parts = None\<rparr>,
                                      turnComplete = Some True\<rparr>\<rparr> = Inl TypeError \<and>
   onmessage \<lparr>serverContent = Some \<lparr>modelTurn = Some \<lparr>parts = None\<rparr>,
                                    turnComplete = Some True\<rparr>\<rparr> initial = Inl TypeError \<and>
   deliver initial \<lparr>serverContent = Some \<lparr>modelTurn = Some \<lparr>parts = None\<rparr>,
                                          turnComplete = Some True\<rparr>\<rparr> =
     \<lparr>audioChunks = [], settled = None, closeRequested = False, unhandled = [TypeError]\<rparr>"
  by (simp add: base64Audio_def onmessage_def deliver_def bindE_def initial_def)

text \<open>
  On every other message without a payload (line 124 yields undefined) \<open>onmessage\<close>
  returns normally and neither the accumulated chunks nor the promise change.
\<close>

lemma no_payload_ignored:
  assumes "base64Audio message = Inr None"
  shows "\<exists>st'. onmessage message st = Inr st' \<and> audioChunks st' = audioChunks st \<and>
           settled st' = settled st"
  using assms by (simp add: onmessage_def bindE_def)

text \<open>
  C9. Decoding the base64 text \<open>encode\<close> produces for a byte array gives the byte array
  back: \<open>encode\<close> never throws, and \<open>decode\<close> of its result is the input.
\<close>

theorem decode_encode: "\<exists>s. encode bytes = Inr s \<and> decode s = Inr bytes"
  using encode_decode_bytes [of bytes] by blast


end
